theory Spec2Isabelle
  imports Main
begin

section \<open>Python strings\<close>

text \<open>
  A Python \<open>str\<close> is modelled as a \<open>string\<close>; a \<open>char\<close> stands for the code point of
  the same number, so the model covers the code points 0 to 255. On these, \<open>\d\<close> is the
  ten ASCII digits, \<open>str.lower\<close> maps A-Z and the Latin-1 capitals (192 to 222 without
  the multiplication sign 215) 32 places up, and the white space of \<open>str.strip\<close> and
  \<open>str.split\<close> is 9 to 13, 28 to 32, 133 and 160.
\<close>

definition is_digit :: "char \<Rightarrow> bool" where
  "is_digit c = (c \<in> set ''0123456789'')"

definition is_space :: "char \<Rightarrow> bool" where
  "is_space c = ((of_char c :: nat) \<in> {9, 10, 11, 12, 13, 28, 29, 30, 31, 32, 133, 160})"

definition lower_char :: "char \<Rightarrow> char" where
  "lower_char c =
     (let n = (of_char c :: nat)
      in if (65 \<le> n \<and> n \<le> 90) \<or> (192 \<le> n \<and> n \<le> 222 \<and> n \<noteq> 215)
         then char_of (n + 32) else c)"

definition ascii_lower_char :: "char \<Rightarrow> char" where
  "ascii_lower_char c =
     (let n = (of_char c :: nat)
      in if 65 \<le> n \<and> n \<le> 90 then char_of (n + 32) else c)"

definition str_lower :: "string \<Rightarrow> string" where
  "str_lower s = map lower_char s"

definition ascii_lower :: "string \<Rightarrow> string" where
  "ascii_lower s = map ascii_lower_char s"

definition str_strip :: "string \<Rightarrow> string" where
  "str_strip s = rev (dropWhile is_space (rev (dropWhile is_space s)))"

text \<open>\<open>s.split(sep)\<close> for a separator of one character: never the empty list.\<close>

fun str_split :: "char \<Rightarrow> string \<Rightarrow> string list" where
  "str_split sep [] = [[]]"
| "str_split sep (c # cs) =
     (if c = sep then [] # str_split sep cs
      else (case str_split sep cs of
              [] \<Rightarrow> [[c]]
            | w # ws \<Rightarrow> (c # w) # ws))"

text \<open>\<open>s.split()\<close>: the maximal runs of characters that are not white space.\<close>

fun split_ws_from :: "string \<Rightarrow> string \<Rightarrow> string list" where
  "split_ws_from cur [] = (if cur = [] then [] else [rev cur])"
| "split_ws_from cur (c # cs) =
     (if is_space c
      then (if cur = [] then split_ws_from [] cs else rev cur # split_ws_from [] cs)
      else split_ws_from (c # cur) cs)"

definition str_split_ws :: "string \<Rightarrow> string list" where
  "str_split_ws s = split_ws_from [] s"

text \<open>\<open>sep.join(xs)\<close>.\<close>

fun str_join :: "string \<Rightarrow> string list \<Rightarrow> string" where
  "str_join sep [] = []"
| "str_join sep [x] = x"
| "str_join sep (x # y # ys) = x @ sep @ str_join sep (y # ys)"

section \<open>The version pattern\<close>

text \<open>
  The pattern \<open>\d+\.\d+\.\d+\.\d+\<close> is a sequence of pieces, each an atom taken once
  or one or more times. \<open>re.match\<close> looks for a match that starts at the first character
  and may end anywhere: the matcher below tries the longer repetition first and falls back
  to the shorter one, and it accepts when the pattern is used up, whatever is left of the
  string.
\<close>

datatype atom = Digit | Lit char

datatype piece = Once atom | OneOrMore atom

fun atom_matches :: "atom \<Rightarrow> char \<Rightarrow> bool" where
  "atom_matches Digit c = is_digit c"
| "atom_matches (Lit x) c = (c = x)"

fun re_match :: "piece list \<Rightarrow> string \<Rightarrow> bool" where
  "re_match [] s = True"
| "re_match (Once a # ps) [] = False"
| "re_match (Once a # ps) (c # cs) = (atom_matches a c \<and> re_match ps cs)"
| "re_match (OneOrMore a # ps) [] = False"
| "re_match (OneOrMore a # ps) (c # cs) =
     (atom_matches a c \<and> (re_match (OneOrMore a # ps) cs \<or> re_match ps cs))"

definition version_pattern :: "piece list" where
  "version_pattern =
     [OneOrMore Digit, Once (Lit (CHR ''.'')),
      OneOrMore Digit, Once (Lit (CHR ''.'')),
      OneOrMore Digit, Once (Lit (CHR ''.'')),
      OneOrMore Digit]"

definition is_valid_version :: "string \<Rightarrow> bool" where
  "is_valid_version chromedriver_version = re_match version_pattern chromedriver_version"

text \<open>
  The strict pattern of the specification: exactly four components between dots, each a
  non-empty run of decimal digits.
\<close>

definition is_integer :: "string \<Rightarrow> bool" where
  "is_integer s = (s \<noteq> [] \<and> list_all is_digit s)"

definition strict_version :: "string \<Rightarrow> bool" where
  "strict_version s =
     (case str_split (CHR ''.'') s of
        [a, b, c, d] \<Rightarrow> is_integer a \<and> is_integer b \<and> is_integer c \<and> is_integer d
      | _ \<Rightarrow> False)"

section \<open>Exceptions, log records and outside actions\<close>

text \<open>
  The exceptions the program can meet. Those raised by the code itself have their own
  constructor; \<open>OtherError\<close> stands for any further subclass of \<open>Exception\<close> that a
  library call raises (an \<open>OSError\<close> of \<open>shutil.copy\<close>, a \<open>BadZipFile\<close>, ...).
\<close>

datatype exn =
    KeyError string
  | TypeError
  | AttributeError
  | IndexError
  | FileNotFoundError
  | HTTPError nat
  | OtherError string

text \<open>The parsed JSON document: what \<open>resp.json()\<close> returns. An object is a Python
  \<open>dict\<close>, written as its list of items; a lookup takes the first item with the key.
  A number is kept as an integer: a float behaves like an integer in every operation the
  resolver applies.\<close>

datatype json =
    JNull
  | JBool bool
  | JNum int
  | JStr string
  | JArr "json list"
  | JObj "(string \<times> json) list"

text \<open>A log message is the text of an f-string; a formatted object that is not a string
  is kept as the object.\<close>

datatype frag = Txt string | FmtNat nat | FmtJson json | FmtExn exn

datatype level = INFO | WARNING | ERROR | SUCCESS

datatype action =
    Spawn "string list"
  | HttpGet string
  | OpenForWrite string
  | WriteChunk string "nat list"
  | ExtractAll string
  | CopyFile string string
  | Chmod string nat

datatype event = Log level "frag list" | Act action

text \<open>A call yields the events it caused, in order, and either the exception that left
  it (\<open>Inl\<close>) or the value it returned (\<open>Inr\<close>).\<close>

type_synonym 'a run = "event list \<times> (exn + 'a)"

fun is_outside_action :: "event \<Rightarrow> bool" where
  "is_outside_action (Act (Spawn _)) = False"
| "is_outside_action (Act _) = True"
| "is_outside_action (Log _ _) = False"

section \<open>Operations on parsed JSON values\<close>

text \<open>\<open>v[key]\<close> with a string key: a \<open>dict\<close> looks the key up, every other value
  raises \<open>TypeError\<close> (a list or a string wants an integer index, the rest cannot be
  subscripted).\<close>

fun subscript :: "json \<Rightarrow> string \<Rightarrow> exn + json" where
  "subscript (JObj kvs) k =
     (case map_of kvs k of None \<Rightarrow> Inl (KeyError k) | Some v \<Rightarrow> Inr v)"
| "subscript _ k = Inl TypeError"

text \<open>\<open>for x in v\<close>: a list gives its elements, a \<open>dict\<close> its keys, a string its
  characters; the other values cannot be iterated.\<close>

fun iterate :: "json \<Rightarrow> exn + json list" where
  "iterate (JArr xs) = Inr xs"
| "iterate (JObj kvs) = Inr (map JStr (remdups (map fst kvs)))"
| "iterate (JStr s) = Inr (map (\<lambda>c. JStr [c]) s)"
| "iterate _ = Inl TypeError"

text \<open>\<open>v.lower()\<close> and \<open>v.split("/")\<close> exist on strings only.\<close>

fun json_lower :: "json \<Rightarrow> exn + string" where
  "json_lower (JStr s) = Inr (str_lower s)"
| "json_lower _ = Inl AttributeError"

fun json_split :: "char \<Rightarrow> json \<Rightarrow> exn + string list" where
  "json_split sep (JStr s) = Inr (str_split sep s)"
| "json_split sep _ = Inl AttributeError"

section \<open>The release resolver\<close>

text \<open>Line 70: the URL without its last segment, then \<open>/chromedriver-<platform>.zip\<close>.\<close>

definition rewrite_url :: "string list \<Rightarrow> string \<Rightarrow> string" where
  "rewrite_url parts user_platform =
     str_join ''/'' (butlast parts) @ ''/chromedriver-'' @ user_platform @ ''.zip''"

text \<open>The loop of lines 66 to 71. It stops at the first descriptor whose platform matches;
  the lookups of \<open>"platform"\<close> and \<open>"url"\<close> are outside every \<open>try\<close>.\<close>

fun scan_downloads :: "json list \<Rightarrow> string \<Rightarrow> exn + string option" where
  "scan_downloads [] user_platform = Inr None"
| "scan_downloads (dict_i # rest) user_platform =
     (case subscript dict_i ''platform'' of
        Inl e \<Rightarrow> Inl e
      | Inr dict_i_platform \<Rightarrow>
          (case json_lower dict_i_platform of
             Inl e \<Rightarrow> Inl e
           | Inr l \<Rightarrow>
               if l = str_lower user_platform
               then (case subscript dict_i ''url'' of
                       Inl e \<Rightarrow> Inl e
                     | Inr download_url \<Rightarrow>
                         (case json_split (CHR ''/'') download_url of
                            Inl e \<Rightarrow> Inl e
                          | Inr parts \<Rightarrow> Inr (Some (rewrite_url parts user_platform))))
               else scan_downloads rest user_platform))"

text \<open>The answer to an HTTP request: no answer (the library raises), or a status code
  with what \<open>resp.json()\<close> gives on the body.\<close>

datatype http_outcome = RequestFailed exn | Response nat "exn + json"

definition latest_versions_url :: string where
  "latest_versions_url =
     ''https://googlechromelabs.github.io/chrome-for-testing/latest-versions-per-milestone-with-downloads.json''"

definition major_version :: "string \<Rightarrow> string" where
  "major_version chrome_version =
     (case str_split (CHR ''.'') chrome_version of [] \<Rightarrow> [] | m # _ \<Rightarrow> m)"

text \<open>The single quote, which a string literal cannot hold.\<close>

definition q :: string where
  "q = [CHR 0x27]"

definition msg_status :: "nat \<Rightarrow> frag list" where
  "msg_status code =
     [Txt ''Resp. status code is not equal to 200. Resp. status code: '', FmtNat code]"

definition msg_milestones :: "frag list" where
  "msg_milestones =
     [Txt (q @ ''milestones'' @ q @ '' key does not exist inside '' @
           q @ ''latest_versions_url'' @ q @ '' JSON response.'')]"

definition msg_major :: "string \<Rightarrow> frag list" where
  "msg_major v =
     [Txt (''Major version key '' @ v @ '' does not exist inside '' @
           q @ ''latest_versions_url'' @ q @ '' JSON response.'')]"

definition msg_downloads :: "frag list" where
  "msg_downloads =
     [Txt (q @ ''downloads'' @ q @ '' or '' @ q @ ''chrome'' @ q @
           '' key(s) does not exist inside '' @
           q @ ''latest_versions_url'' @ q @ '' JSON response.'')]"

definition msg_no_url :: "json \<Rightarrow> string \<Rightarrow> frag list" where
  "msg_no_url major_version_dict user_platform =
     [Txt (''Was unable to retrieve chromedriver download URL for Chrome major version '' @ q),
      FmtJson major_version_dict,
      Txt (q @ '' and user platform '' @ q @ user_platform @ q)]"

text \<open>\<open>not x\<close> for a value that is \<open>None\<close> (or \<open>False\<close>) or a string.\<close>

fun falsy :: "string option \<Rightarrow> bool" where
  "falsy None = True"
| "falsy (Some s) = (s = [])"

text \<open>Lines 37 to 75. Only \<open>KeyError\<close> is caught, and only around the three lookups of
  lines 48, 54 and 60.\<close>

definition get_chromedriver_download_url ::
    "http_outcome \<Rightarrow> string \<Rightarrow> string \<Rightarrow> string option run" where
  "get_chromedriver_download_url resp chrome_version user_platform =
     (case resp of
        RequestFailed e \<Rightarrow> ([Act (HttpGet latest_versions_url)], Inl e)
      | Response status_code body \<Rightarrow>
          if status_code \<noteq> 200
          then ([Act (HttpGet latest_versions_url), Log ERROR (msg_status status_code)], Inr None)
          else
            let chromedriver_major_version = major_version chrome_version;
                got = [Act (HttpGet latest_versions_url)]
            in (case (case body of
                        Inl e \<Rightarrow> Inl e
                      | Inr doc \<Rightarrow> subscript doc ''milestones'') of
                  Inl (KeyError _) \<Rightarrow> (got @ [Log WARNING msg_milestones], Inr None)
                | Inl e \<Rightarrow> (got, Inl e)
                | Inr milestones_dict \<Rightarrow>
                    (case subscript milestones_dict chromedriver_major_version of
                       Inl (KeyError _) \<Rightarrow>
                         (got @ [Log WARNING (msg_major chromedriver_major_version)], Inr None)
                     | Inl e \<Rightarrow> (got, Inl e)
                     | Inr major_version_dict \<Rightarrow>
                         (case (case subscript major_version_dict ''downloads'' of
                                  Inl e \<Rightarrow> Inl e
                                | Inr d \<Rightarrow> subscript d ''chrome'') of
                            Inl (KeyError _) \<Rightarrow> (got @ [Log WARNING msg_downloads], Inr None)
                          | Inl e \<Rightarrow> (got, Inl e)
                          | Inr downloads_list_of_dicts \<Rightarrow>
                              (case iterate downloads_list_of_dicts of
                                 Inl e \<Rightarrow> (got, Inl e)
                               | Inr ds \<Rightarrow>
                                   (case scan_downloads ds user_platform of
                                      Inl e \<Rightarrow> (got, Inl e)
                                    | Inr download_url \<Rightarrow>
                                        if falsy download_url
                                        then (got @ [Log ERROR (msg_no_url major_version_dict user_platform)],
                                              Inr download_url)
                                        else (got, Inr download_url)))))))"

section \<open>The version detector\<close>

text \<open>What running a command gives: the process could not be started (\<open>subprocess\<close>
  raises the \<open>OSError\<close> of the launch, \<open>FileNotFoundError\<close> when the executable is
  absent), or it ran and left a return code, its captured standard output and its captured
  standard error.\<close>

datatype proc_outcome = LaunchFailed exn | Exited int string string

text \<open>Lines 13 to 31. \<open>check_output\<close> raises \<open>CalledProcessError\<close> on a return code other
  than 0, the one exception the \<open>except\<close> clause names; the output then holds standard
  error too (\<open>stderr=subprocess.STDOUT\<close>). \<open>[-1]\<close> on the empty list of words raises
  \<open>IndexError\<close>.\<close>

definition get_chrome_version :: "proc_outcome \<Rightarrow> string option run" where
  "get_chrome_version p =
     (let started = [Act (Spawn [''google-chrome'', ''--version''])]
      in case p of
           LaunchFailed e \<Rightarrow> (started, Inl e)
         | Exited code out err \<Rightarrow>
             if code \<noteq> 0
             then (started @ [Log ERROR [Txt (''Error: '' @ str_strip out)]], Inr None)
             else (case str_split_ws (str_strip out) of
                     [] \<Rightarrow> (started, Inl IndexError)
                   | w # ws \<Rightarrow>
                       let version = last (w # ws)
                       in if \<not> is_valid_version version
                          then (started @
                                [Log ERROR [Txt (''Invalid Chrome version returned from subprocess: '' @ version)]],
                                Inr None)
                          else (started, Inr (Some version))))"

section \<open>The archive fetcher\<close>

text \<open>The answer to the streamed request: the status code, what \<open>int\<close> gives on the
  \<open>Content-Length\<close> header when there is one, and the chunks of the body as
  \<open>iter_content\<close> hands them over.\<close>

record archive_response =
  status_code :: nat
  content_length :: "(exn + nat) option"
  chunks :: "nat list list"

datatype archive_outcome = NoResponse exn | Answered archive_response

text \<open>\<open>resp.raise_for_status()\<close>: an \<open>HTTPError\<close> for the codes 400 to 599, nothing
  otherwise.\<close>

definition raise_for_status :: "nat \<Rightarrow> exn option" where
  "raise_for_status code = (if 400 \<le> code \<and> code < 600 then Some (HTTPError code) else None)"

text \<open>The loop of lines 84 to 87: every non-empty chunk is written; a failing write ends
  the loop with its exception.\<close>

fun write_chunks :: "(nat list \<Rightarrow> exn option) \<Rightarrow> string \<Rightarrow> nat list list \<Rightarrow> unit run" where
  "write_chunks write_error fn [] = ([], Inr ())"
| "write_chunks write_error fn (chunk # rest) =
     (if chunk = [] then write_chunks write_error fn rest
      else (case write_error chunk of
              Some e \<Rightarrow> ([Act (WriteChunk fn chunk)], Inl e)
            | None \<Rightarrow>
                (case write_chunks write_error fn rest of
                   (evs, r) \<Rightarrow> (Act (WriteChunk fn chunk) # evs, r))))"

text \<open>Lines 77 to 90. There is no \<open>try\<close> in this function.\<close>

definition download_chromedriver ::
    "archive_outcome \<Rightarrow> exn option \<Rightarrow> (nat list \<Rightarrow> exn option) \<Rightarrow> string \<Rightarrow> string run" where
  "download_chromedriver resp open_error write_error chromedriver_download_url =
     (let fn = last (str_split (CHR ''/'') chromedriver_download_url);
          asked = [Act (HttpGet chromedriver_download_url)]
      in case resp of
           NoResponse e \<Rightarrow> (asked, Inl e)
         | Answered r \<Rightarrow>
             (case raise_for_status (status_code r) of
                Some e \<Rightarrow> (asked, Inl e)
              | None \<Rightarrow>
                  (case open_error of
                     Some e \<Rightarrow> (asked @ [Act (OpenForWrite fn)], Inl e)
                   | None \<Rightarrow>
                       (case content_length r of
                          Some (Inl e) \<Rightarrow> (asked @ [Act (OpenForWrite fn)], Inl e)
                        | _ \<Rightarrow>
                            (case write_chunks write_error fn (chunks r) of
                               (evs, Inl e) \<Rightarrow> (asked @ [Act (OpenForWrite fn)] @ evs, Inl e)
                             | (evs, Inr _) \<Rightarrow> (asked @ [Act (OpenForWrite fn)] @ evs, Inr fn))))))"

section \<open>The archive extractor\<close>

text \<open>\<open>os.path.join\<close> of two components on a POSIX system.\<close>

definition path_join :: "string \<Rightarrow> string \<Rightarrow> string" where
  "path_join a b =
     (if b \<noteq> [] \<and> hd b = CHR ''/'' then b
      else if a = [] \<or> last a = CHR ''/'' then a @ b
      else a @ ''/'' @ b)"

text \<open>Lines 92 to 104. The function returns \<open>False\<close> (here \<open>None\<close>) when the extraction
  raises, and otherwise the joined path. \<open>zip_fn_wo_ext\<close> is what stands before the first
  dot of the name.\<close>

definition extract_zipped_file :: "exn option \<Rightarrow> string \<Rightarrow> string option run" where
  "extract_zipped_file extract_error zip_fn =
     (case extract_error of
        Some e \<Rightarrow>
          ([Act (ExtractAll zip_fn),
            Log ERROR [Txt ''Something went wrong while extracting file: '', FmtExn e]],
           Inr None)
      | None \<Rightarrow>
          (let zip_fn_wo_ext = (case str_split (CHR ''.'') zip_fn of [] \<Rightarrow> [] | x # _ \<Rightarrow> x)
           in ([Act (ExtractAll zip_fn)], Inr (Some (path_join zip_fn_wo_ext ''chromedriver'')))))"

text \<open>The name without its extension, as \<open>os.path.splitext\<close> takes it off a name that has
  no directory part: everything before the last dot, a name with no dot (or with dots at its
  start only) staying whole.\<close>

definition without_extension :: "string \<Rightarrow> string" where
  "without_extension fn =
     (let lead = takeWhile (\<lambda>c. c = CHR ''.'') fn;
          body = dropWhile (\<lambda>c. c = CHR ''.'') fn
      in if CHR ''.'' \<in> set body
         then lead @ rev (tl (dropWhile (\<lambda>c. c \<noteq> CHR ''.'') (rev body)))
         else fn)"

section \<open>The install locator and the installer\<close>

text \<open>Lines 106 to 119: \<open>which chromedriver\<close> with \<open>check=True\<close>.\<close>

definition find_chromedriver_location :: "proc_outcome \<Rightarrow> string option run" where
  "find_chromedriver_location p =
     (let started = [Act (Spawn [''which'', ''chromedriver''])]
      in case p of
           LaunchFailed e \<Rightarrow> (started, Inl e)
         | Exited code out err \<Rightarrow>
             if code \<noteq> 0
             then (started @ [Log ERROR [Txt (''Error: '' @ str_strip err)]], Inr None)
             else (started, Inr (Some (str_strip out))))"

definition mode_0o755 :: nat where
  "mode_0o755 = 7 * 8 ^ 2 + 5 * 8 + 5"

text \<open>Lines 121 to 132. Both calls stand in one \<open>try\<close> whose \<open>except Exception\<close>
  logs and returns \<open>False\<close>; the two arguments say how \<open>shutil.copy\<close> and \<open>os.chmod\<close>
  end (\<open>None\<close>: without an exception).\<close>

definition move_extracted_chromedriver ::
    "exn option \<Rightarrow> exn option \<Rightarrow> string \<Rightarrow> string \<Rightarrow> bool run" where
  "move_extracted_chromedriver copy_error chmod_error extracted_chromedriver_fp os_chromedriver_location =
     (case copy_error of
        Some e \<Rightarrow>
          ([Act (CopyFile extracted_chromedriver_fp os_chromedriver_location),
            Log ERROR [Txt ''Error moving Chromedriver: '', FmtExn e]],
           Inr False)
      | None \<Rightarrow>
          (case chmod_error of
             Some e \<Rightarrow>
               ([Act (CopyFile extracted_chromedriver_fp os_chromedriver_location),
                 Act (Chmod os_chromedriver_location mode_0o755),
                 Log ERROR [Txt ''Error moving Chromedriver: '', FmtExn e]],
                Inr False)
           | None \<Rightarrow>
               ([Act (CopyFile extracted_chromedriver_fp os_chromedriver_location),
                 Act (Chmod os_chromedriver_location mode_0o755)],
                Inr True)))"

section \<open>The pipeline\<close>

text \<open>Everything outside the program that one run meets.\<close>

record env =
  chrome_proc :: proc_outcome
  versions_resp :: http_outcome
  archive_resp :: "string \<Rightarrow> archive_outcome"
  open_error :: "string \<Rightarrow> exn option"
  write_error :: "string \<Rightarrow> nat list \<Rightarrow> exn option"
  extract_error :: "string \<Rightarrow> exn option"
  which_proc :: proc_outcome
  copy_error :: "string \<Rightarrow> string \<Rightarrow> exn option"
  chmod_error :: "string \<Rightarrow> exn option"

text \<open>One stage after another: an exception of the first ends the run, its events kept.\<close>

definition then_run :: "'a run \<Rightarrow> ('a \<Rightarrow> 'b run) \<Rightarrow> 'b run" where
  "then_run r f =
     (case r of
        (evs, Inl e) \<Rightarrow> (evs, Inl e)
      | (evs, Inr x) \<Rightarrow> (case f x of (evs', y) \<Rightarrow> (evs @ evs', y)))"

text \<open>\<open>if not x: return\<close> for a value that is \<open>None\<close> (or \<open>False\<close>) or a string: the
  empty string stops the run as well.\<close>

definition unless_falsy :: "string option \<Rightarrow> event list \<Rightarrow> (string \<Rightarrow> unit run) \<Rightarrow> unit run" where
  "unless_falsy x on_stop f =
     (if falsy x then (on_stop, Inr ())
      else (case x of None \<Rightarrow> (on_stop, Inr ()) | Some s \<Rightarrow> f s))"

definition USER_PLATFORM :: string where
  "USER_PLATFORM = ''linux64''"

text \<open>Lines 134 to 161.\<close>

definition main :: "env \<Rightarrow> string \<Rightarrow> unit run" where
  "main w user_platform =
     then_run (get_chrome_version (chrome_proc w)) (\<lambda>current_chrome_version.
     unless_falsy current_chrome_version [] (\<lambda>current_chrome_version.
     then_run (get_chromedriver_download_url (versions_resp w) current_chrome_version user_platform)
       (\<lambda>chromedriver_download_url.
     unless_falsy chromedriver_download_url [] (\<lambda>chromedriver_download_url.
     then_run
       ([Log INFO [Txt (''Starting to download chromedriver (version: '' @ current_chrome_version @
                        '', platform: '' @ user_platform @ '')'')]], Inr ())
       (\<lambda>_.
     then_run
       (let fn = last (str_split (CHR ''/'') chromedriver_download_url)
        in download_chromedriver (archive_resp w chromedriver_download_url) (open_error w fn)
             (write_error w fn) chromedriver_download_url)
       (\<lambda>downloaded_fn.
     unless_falsy (Some downloaded_fn) [Log ERROR [Txt ''Failed to download chromedriver'']]
       (\<lambda>downloaded_fn.
     then_run ([Log SUCCESS [Txt ''Successfully downloaded chromedriver'']], Inr ()) (\<lambda>_.
     then_run (extract_zipped_file (extract_error w downloaded_fn) downloaded_fn)
       (\<lambda>extracted_chromedriver_fp.
     unless_falsy extracted_chromedriver_fp [] (\<lambda>extracted_chromedriver_fp.
     then_run (find_chromedriver_location (which_proc w)) (\<lambda>os_chromedriver_location.
     unless_falsy os_chromedriver_location [] (\<lambda>os_chromedriver_location.
     then_run
       (move_extracted_chromedriver
          (copy_error w extracted_chromedriver_fp os_chromedriver_location)
          (chmod_error w os_chromedriver_location)
          extracted_chromedriver_fp os_chromedriver_location)
       (\<lambda>final_status.
          if final_status
          then ([Log SUCCESS [Txt ''Chromedriver successfully updated for your OS.'']], Inr ())
          else ([], Inr ()))))))))))))))"

section \<open>The vocabulary of the specification\<close>


text \<open>The string a descriptor gives under \<open>"platform"\<close> and under \<open>"url"\<close>,
  as the subscripts of the scan read them.\<close>

definition descriptor_platform :: "json \<Rightarrow> string option" where
  "descriptor_platform d =
     (case subscript d ''platform'' of Inr (JStr pl) \<Rightarrow> Some pl | _ \<Rightarrow> None)"


text \<open>The value an object holds under a key, read off the items of the object; the
  platform and the URL a descriptor holds, when they are strings.\<close>

fun entry :: "json \<Rightarrow> string \<Rightarrow> json option" where
  "entry (JObj kvs) k = map_of kvs k"
| "entry _ k = None"



text \<open>The leading component of a dotted version string: what stands before its first
  dot.\<close>

definition leading_component :: "string \<Rightarrow> string" where
  "leading_component v = takeWhile (\<lambda>c. c \<noteq> CHR ''.'') v"



definition platform_matches :: "string \<Rightarrow> json \<Rightarrow> bool" where
  "platform_matches user_platform d =
     (case descriptor_platform d of
        Some pl \<Rightarrow> str_lower pl = str_lower user_platform
      | None \<Rightarrow> False)"

text \<open>A key is missing from a value that is an object.\<close>

fun lacks_key :: "json \<Rightarrow> string \<Rightarrow> bool" where
  "lacks_key (JObj kvs) k = (map_of kvs k = None)"
| "lacks_key _ k = False"

text \<open>Documents of the shape the feed has, for the examples.\<close>

definition descriptor :: "string \<Rightarrow> string \<Rightarrow> json" where
  "descriptor pl u = JObj [(''platform'', JStr pl), (''url'', JStr u)]"

definition metadata_doc :: "string \<Rightarrow> json list \<Rightarrow> json" where
  "metadata_doc major ds =
     JObj [(''milestones'', JObj [(major, JObj [(''downloads'', JObj [(''chrome'', JArr ds)])])])]"

definition fetched :: "event list" where
  "fetched = [Act (HttpGet latest_versions_url)]"

text \<open>The end-to-end scenario: the browser reports 124.0.6367.60, the feed lists major
  version 124 for the platform, the archive arrives in two chunks, and the installed driver is
  at \<open>/usr/local/bin/chromedriver\<close>. Nothing fails.\<close>

definition scenario :: env where
  "scenario =
     \<lparr> chrome_proc = Exited 0 ''Google Chrome 124.0.6367.60 '' [],
       versions_resp =
         Response 200 (Inr (metadata_doc ''124''
           [descriptor ''linux64'' ''https://x/124.0.6367.60/linux64/chrome-linux64.zip''])),
       archive_resp = (\<lambda>url. Answered \<lparr> status_code = 200, content_length = None,
                                          chunks = [[80, 75], [3, 4]] \<rparr>),
       open_error = (\<lambda>fn. None),
       write_error = (\<lambda>fn chunk. None),
       extract_error = (\<lambda>fn. None),
       which_proc = Exited 0 (''/usr/local/bin/chromedriver'' @ [CHR 0x0A]) [],
       copy_error = (\<lambda>src dst. None),
       chmod_error = (\<lambda>path. None) \<rparr>"

section \<open>Splitting and joining\<close>

lemma str_split_not_Nil: "str_split sep s \<noteq> []"
  by (induction s) (auto split: list.splits)

lemma str_split_append: "str_split sep (a @ sep # b) = str_split sep a @ str_split sep b"
proof (induction a)
  case Nil
  show ?case by simp
next
  case (Cons c a)
  obtain w ws where ws: "str_split sep a = w # ws"
    using str_split_not_Nil [of sep a] by (cases "str_split sep a") auto
  show ?case using Cons ws by simp
qed

lemma str_split_no_sep: "sep \<notin> set s \<Longrightarrow> str_split sep s = [s]"
  by (induction s) auto

lemma str_join_split: "str_join [sep] (str_split sep s) = s"
proof (induction s)
  case Nil
  show ?case by simp
next
  case (Cons c s)
  obtain w ws where ws: "str_split sep s = w # ws"
    using str_split_not_Nil [of sep s] by (cases "str_split sep s") auto
  show ?case
  proof (cases "c = sep")
    case True
    then show ?thesis using Cons ws by simp
  next
    case False
    then show ?thesis using Cons ws by (cases ws) auto
  qed
qed


text \<open>A string without a slash has one part: the join of no parts is empty, and the
  result starts with a slash that the string did not have.\<close>

lemma rewrite_url_no_slash:
  assumes "CHR ''/'' \<notin> set u"
  shows "rewrite_url (str_split (CHR ''/'') u) p = ''/chromedriver-'' @ p @ ''.zip''"
  using assms by (simp add: rewrite_url_def str_split_no_sep)






lemma str_split_last:
  assumes "sep \<notin> set name"
  shows "last (str_split sep (base @ sep # name)) = name"
  using assms by (simp add: str_split_append str_split_no_sep)

lemma descriptor_platform_scan:
  assumes "descriptor_platform d = Some pl"
  shows "subscript d ''platform'' = Inr (JStr pl)"
  using assms by (auto simp: descriptor_platform_def split: sum.splits json.splits)



lemma scan_downloads_no_match:
  assumes "\<forall>x\<in>set ds. descriptor_platform x \<noteq> None \<and> \<not> platform_matches p x"
  shows "scan_downloads ds p = Inr None"
  using assms
proof (induction ds)
  case Nil
  show ?case by simp
next
  case (Cons x ds)
  from Cons.prems(1) obtain pl where pl: "descriptor_platform x = Some pl" "str_lower pl \<noteq> str_lower p"
    by (auto simp: platform_matches_def split: option.splits)
  have "scan_downloads (x # ds) p = scan_downloads ds p"
    using pl descriptor_platform_scan [OF pl(1)] by simp
  then show ?case using Cons by simp
qed

lemma scan_downloads_Some:
  "scan_downloads ds p = Inr (Some u) \<Longrightarrow> \<exists>parts. u = rewrite_url parts p"
  by (induction ds) (auto split: sum.splits if_splits)

lemma scan_downloads_not_empty: "scan_downloads ds p \<noteq> Inr (Some [])"
  using scan_downloads_Some [of ds p "[]"] by (auto simp: rewrite_url_def)

lemma resolve_by_scan:
  assumes "subscript doc ''milestones'' = Inr ms"
    and "subscript ms (major_version v) = Inr mv"
    and "subscript mv ''downloads'' = Inr dl"
    and "subscript dl ''chrome'' = Inr (JArr ds)"
  shows "get_chromedriver_download_url (Response 200 (Inr doc)) v p =
         (case scan_downloads ds p of
            Inl e \<Rightarrow> (fetched, Inl e)
          | Inr None \<Rightarrow> (fetched @ [Log ERROR (msg_no_url mv p)], Inr None)
          | Inr (Some u) \<Rightarrow> (fetched, Inr (Some u)))"
proof (cases "scan_downloads ds p")
  case (Inl e)
  then show ?thesis
    unfolding get_chromedriver_download_url_def fetched_def Let_def using assms by simp
next
  case (Inr r)
  show ?thesis
  proof (cases r)
    case None
    with Inr show ?thesis
      unfolding get_chromedriver_download_url_def fetched_def Let_def using assms by simp
  next
    case (Some u)
    with Inr scan_downloads_not_empty [of ds p] have "u \<noteq> []" by auto
    with Inr Some show ?thesis
      unfolding get_chromedriver_download_url_def fetched_def Let_def using assms by simp
  qed
qed

lemma resolved_by_scan:
  assumes "get_chromedriver_download_url resp v p = (evs, Inr (Some u))"
  shows "\<exists>ds. scan_downloads ds p = Inr (Some u)"
  using assms unfolding get_chromedriver_download_url_def Let_def
  by (auto split: http_outcome.splits if_splits sum.splits exn.splits option.splits)

lemma metadata_doc_lookup:
  "subscript (metadata_doc m ds) ''milestones'' = Inr (JObj [(m, JObj [(''downloads'', JObj [(''chrome'', JArr ds)])])])"
  "subscript (JObj [(m, JObj [(''downloads'', JObj [(''chrome'', JArr ds)])])]) m = Inr (JObj [(''downloads'', JObj [(''chrome'', JArr ds)])])"
  "subscript (JObj [(''downloads'', JObj [(''chrome'', JArr ds)])]) ''downloads'' = Inr (JObj [(''chrome'', JArr ds)])"
  "subscript (JObj [(''chrome'', JArr ds)]) ''chrome'' = Inr (JArr ds)"
  by (simp_all add: metadata_doc_def)

section \<open>Examples of the feed\<close>

lemma lower_examples:
  "str_lower ''Linux64'' = ''linux64''" "str_lower ''linux64'' = ''linux64''"
  "str_lower ''mac-x64'' = ''mac-x64''"
  "ascii_lower ''Linux64'' = ''linux64''" "ascii_lower ''linux64'' = ''linux64''"
  by code_simp+

lemma major_version_example: "major_version ''123.0.6312.58'' = ''123''"
  by (simp add: major_version_def)


lemma metadata_doc_resolves:
  "get_chromedriver_download_url (Response 200 (Inr (metadata_doc (major_version v) ds))) v p =
     (case scan_downloads ds p of
        Inl e \<Rightarrow> (fetched, Inl e)
      | Inr None \<Rightarrow>
          (fetched @ [Log ERROR (msg_no_url (JObj [(''downloads'', JObj [(''chrome'', JArr ds)])]) p)],
           Inr None)
      | Inr (Some u) \<Rightarrow> (fetched, Inr (Some u)))"
  by (rule resolve_by_scan [OF metadata_doc_lookup])

lemma lacks_key_subscript: "lacks_key d k \<Longrightarrow> subscript d k = Inl (KeyError k)"
  by (cases d) auto

text \<open>The vocabulary of the specification against the operations of the code: a value
  held under a key is what the subscript returns, the strings of a descriptor are those the
  scan reads, and the major version the resolver looks up is the leading component of the
  version. \<open>str.lower\<close> reaches beyond ASCII: it takes the capital E with acute accent to
  the small one, which differ up to ASCII case.\<close>

lemma entry_subscript: "entry d k = Some x \<Longrightarrow> subscript d k = Inr x"
  by (cases d) auto



lemma str_split_head: "\<exists>ws. str_split sep s = takeWhile (\<lambda>c. c \<noteq> sep) s # ws"
proof (induction s)
  case Nil
  show ?case by simp
next
  case (Cons c s)
  then obtain ws where "str_split sep s = takeWhile (\<lambda>c. c \<noteq> sep) s # ws" by blast
  then show ?case by simp
qed

lemma major_version_leading_component: "major_version v = leading_component v"
  using str_split_head [of "CHR ''.''" v] by (auto simp: major_version_def leading_component_def)





lemma lower_beyond_ascii:
  "str_lower [CHR 0xC9] = [CHR 0xE9]" "ascii_lower [CHR 0xC9] \<noteq> ascii_lower [CHR 0xE9]"
  by code_simp+

section \<open>Properties of the release resolver\<close>




text \<open>
  Claim C9. Whatever the response, a URL that resolution returns ends in
  \<open>/chromedriver-<platform>.zip\<close> with the configured platform string as the caller
  wrote it; when that string has no slash, this is the last segment of the URL, the file name
  the fetcher takes. The platform string of the matched descriptor does not appear.
\<close>

theorem url_embeds_configured_platform:
  assumes "get_chromedriver_download_url resp v p = (evs, Inr (Some u))"
  shows "\<exists>base. u = base @ ''/chromedriver-'' @ p @ ''.zip'' \<and>
           (CHR ''/'' \<notin> set p \<longrightarrow>
              last (str_split (CHR ''/'') u) = ''chromedriver-'' @ p @ ''.zip'')"
proof -
  obtain ds where "scan_downloads ds p = Inr (Some u)"
    using resolved_by_scan [OF assms] by blast
  then obtain parts where "u = rewrite_url parts p"
    using scan_downloads_Some by blast
  then have u: "u = str_join ''/'' (butlast parts) @ CHR ''/'' # (''chromedriver-'' @ p @ ''.zip'')"
    by (simp add: rewrite_url_def)
  have "CHR ''/'' \<notin> set p \<Longrightarrow> last (str_split (CHR ''/'') u) = ''chromedriver-'' @ p @ ''.zip''"
    unfolding u by (rule str_split_last) simp
  then show ?thesis using u by auto
qed

theorem url_embeds_configured_platform_witness:
  "get_chromedriver_download_url
     (Response 200 (Inr (metadata_doc ''123''
        [descriptor ''linux64'' ''https://x/123.0.0.0/chrome-linux64.zip''])))
     ''123.0.6312.58'' ''Linux64'' =
   (fetched, Inr (Some ''https://x/123.0.0.0/chromedriver-Linux64.zip'')) \<and>
   CHR ''/'' \<notin> set ''Linux64'' \<and>
   (\<exists>base. ''https://x/123.0.0.0/chromedriver-Linux64.zip'' = base @ ''/chromedriver-'' @ ''Linux64'' @ ''.zip'') \<and>
   last (str_split (CHR ''/'') ''https://x/123.0.0.0/chromedriver-Linux64.zip'') =
     ''chromedriver-'' @ ''Linux64'' @ ''.zip''"
proof -
  have s: "scan_downloads [descriptor ''linux64'' ''https://x/123.0.0.0/chrome-linux64.zip''] ''Linux64''
           = Inr (Some ''https://x/123.0.0.0/chromedriver-Linux64.zip'')"
    by (simp add: descriptor_def lower_examples rewrite_url_def)
  have h: "get_chromedriver_download_url
     (Response 200 (Inr (metadata_doc ''123''
        [descriptor ''linux64'' ''https://x/123.0.0.0/chrome-linux64.zip''])))
     ''123.0.6312.58'' ''Linux64'' =
   (fetched, Inr (Some ''https://x/123.0.0.0/chromedriver-Linux64.zip''))"
    using metadata_doc_resolves [of "''123.0.6312.58''" _ "''Linux64''"] s
    by (simp add: major_version_example)
  have n: "CHR ''/'' \<notin> set ''Linux64''" by simp
  from url_embeds_configured_platform [OF h] n h show ?thesis by simp
qed



text \<open>
  Claim C6. In a document fetched with status 200, each of the three schema defects ends
  resolution with the value \<open>None\<close> after one warning: an object without
  \<open>"milestones"\<close>; a \<open>"milestones"\<close> object without the leading component of the
  browser version; an entry of that version without \<open>"downloads"\<close>, or a
  \<open>"downloads"\<close> object without \<open>"chrome"\<close>. The three warnings differ from one
  another, and each holds the name of the key it is about: \<open>milestones\<close>, the major
  version that was not found, and both \<open>downloads\<close> and \<open>chrome\<close>.
\<close>

theorem schema_defects_reported:
  "(lacks_key doc ''milestones'' \<longrightarrow>
      get_chromedriver_download_url (Response 200 (Inr doc)) v p =
        (fetched @ [Log WARNING msg_milestones], Inr None)) \<and>
   (entry doc ''milestones'' = Some ms \<and> lacks_key ms (leading_component v) \<longrightarrow>
      get_chromedriver_download_url (Response 200 (Inr doc)) v p =
        (fetched @ [Log WARNING (msg_major (leading_component v))], Inr None)) \<and>
   (entry doc ''milestones'' = Some ms \<and> entry ms (leading_component v) = Some mv \<and>
    lacks_key mv ''downloads'' \<longrightarrow>
      get_chromedriver_download_url (Response 200 (Inr doc)) v p =
        (fetched @ [Log WARNING msg_downloads], Inr None)) \<and>
   (entry doc ''milestones'' = Some ms \<and> entry ms (leading_component v) = Some mv \<and>
    entry mv ''downloads'' = Some dl \<and> lacks_key dl ''chrome'' \<longrightarrow>
      get_chromedriver_download_url (Response 200 (Inr doc)) v p =
        (fetched @ [Log WARNING msg_downloads], Inr None)) \<and>
   msg_milestones \<noteq> msg_major m \<and> msg_milestones \<noteq> msg_downloads \<and> msg_major m \<noteq> msg_downloads \<and>
   (\<exists>a b. msg_milestones = [Txt (a @ ''milestones'' @ b)]) \<and>
   (\<exists>a b. msg_major m = [Txt (a @ m @ b)]) \<and>
   (\<exists>a b. msg_downloads = [Txt (a @ ''downloads'' @ b)]) \<and>
   (\<exists>a b. msg_downloads = [Txt (a @ ''chrome'' @ b)])"
proof -
  let ?R = "get_chromedriver_download_url (Response 200 (Inr doc)) v p"
  have c1: "lacks_key doc ''milestones'' \<longrightarrow> ?R = (fetched @ [Log WARNING msg_milestones], Inr None)"
    unfolding get_chromedriver_download_url_def fetched_def Let_def
    by (auto dest!: lacks_key_subscript)
  have c2: "entry doc ''milestones'' = Some ms \<and> lacks_key ms (leading_component v) \<longrightarrow>
      ?R = (fetched @ [Log WARNING (msg_major (leading_component v))], Inr None)"
    unfolding get_chromedriver_download_url_def fetched_def Let_def major_version_leading_component
    by (auto dest!: lacks_key_subscript entry_subscript)
  have c3: "entry doc ''milestones'' = Some ms \<and> entry ms (leading_component v) = Some mv \<and>
    lacks_key mv ''downloads'' \<longrightarrow> ?R = (fetched @ [Log WARNING msg_downloads], Inr None)"
    unfolding get_chromedriver_download_url_def fetched_def Let_def major_version_leading_component
    by (auto dest!: lacks_key_subscript entry_subscript)
  have c4: "entry doc ''milestones'' = Some ms \<and> entry ms (leading_component v) = Some mv \<and>
    entry mv ''downloads'' = Some dl \<and> lacks_key dl ''chrome'' \<longrightarrow>
      ?R = (fetched @ [Log WARNING msg_downloads], Inr None)"
    unfolding get_chromedriver_download_url_def fetched_def Let_def major_version_leading_component
    by (auto dest!: lacks_key_subscript entry_subscript)
  have d: "msg_milestones \<noteq> msg_major m" "msg_milestones \<noteq> msg_downloads"
      "msg_major m \<noteq> msg_downloads"
    by (simp_all add: msg_milestones_def msg_major_def msg_downloads_def q_def)
  have n1: "\<exists>a b. msg_milestones = [Txt (a @ ''milestones'' @ b)]"
    unfolding msg_milestones_def by metis
  have n2: "\<exists>a b. msg_major m = [Txt (a @ m @ b)]"
    unfolding msg_major_def by metis
  have n3: "\<exists>a b. msg_downloads = [Txt (a @ ''downloads'' @ b)]"
    unfolding msg_downloads_def by metis
  have n4: "\<exists>a b. msg_downloads = [Txt (a @ ''chrome'' @ b)]"
    unfolding msg_downloads_def by (metis append.assoc)
  show ?thesis using c1 c2 c3 c4 d n1 n2 n3 n4 by blast
qed

theorem schema_defects_reported_witness:
  "lacks_key (JObj []) ''milestones'' \<and>
   get_chromedriver_download_url (Response 200 (Inr (JObj []))) ''124.0.6367.60'' ''linux64'' =
     (fetched @ [Log WARNING msg_milestones], Inr None) \<and>
   leading_component ''124.0.6367.60'' = ''124'' \<and>
   entry (JObj [(''milestones'', JObj [(''123'', JObj [])])]) ''milestones'' =
     Some (JObj [(''123'', JObj [])]) \<and>
   lacks_key (JObj [(''123'', JObj [])]) ''124'' \<and>
   get_chromedriver_download_url
     (Response 200 (Inr (JObj [(''milestones'', JObj [(''123'', JObj [])])])))
     ''124.0.6367.60'' ''linux64'' =
     (fetched @
      [Log WARNING
         [Txt (''Major version key '' @ ''124'' @ '' does not exist inside '' @
               q @ ''latest_versions_url'' @ q @ '' JSON response.'')]],
      Inr None) \<and>
   lacks_key (JObj [(''version'', JStr ''124.0.6367.60'')]) ''downloads'' \<and>
   get_chromedriver_download_url
     (Response 200 (Inr (JObj [(''milestones'',
        JObj [(''124'', JObj [(''version'', JStr ''124.0.6367.60'')])])])))
     ''124.0.6367.60'' ''linux64'' =
     (fetched @ [Log WARNING msg_downloads], Inr None) \<and>
   lacks_key (JObj [(''chromedriver'', JArr [])]) ''chrome'' \<and>
   get_chromedriver_download_url
     (Response 200 (Inr (JObj [(''milestones'',
        JObj [(''124'', JObj [(''downloads'', JObj [(''chromedriver'', JArr [])])])])])))
     ''124.0.6367.60'' ''linux64'' =
     (fetched @ [Log WARNING msg_downloads], Inr None)"
proof -
  note t = schema_defects_reported [where v = "''124.0.6367.60''" and p = "''linux64''"]
  have m: "leading_component ''124.0.6367.60'' = ''124''" by (simp add: leading_component_def)
  have a: "get_chromedriver_download_url (Response 200 (Inr (JObj []))) ''124.0.6367.60'' ''linux64'' =
     (fetched @ [Log WARNING msg_milestones], Inr None)"
    using t [where doc = "JObj []"] by simp
  have b: "get_chromedriver_download_url
     (Response 200 (Inr (JObj [(''milestones'', JObj [(''123'', JObj [])])])))
     ''124.0.6367.60'' ''linux64'' =
     (fetched @ [Log WARNING (msg_major ''124'')], Inr None)"
    using t [where doc = "JObj [(''milestones'', JObj [(''123'', JObj [])])]"
               and ms = "JObj [(''123'', JObj [])]"]
    by (simp add: m)
  have c: "get_chromedriver_download_url
     (Response 200 (Inr (JObj [(''milestones'',
        JObj [(''124'', JObj [(''version'', JStr ''124.0.6367.60'')])])])))
     ''124.0.6367.60'' ''linux64'' =
     (fetched @ [Log WARNING msg_downloads], Inr None)"
    using t [where doc = "JObj [(''milestones'',
                 JObj [(''124'', JObj [(''version'', JStr ''124.0.6367.60'')])])]"
               and ms = "JObj [(''124'', JObj [(''version'', JStr ''124.0.6367.60'')])]"
               and mv = "JObj [(''version'', JStr ''124.0.6367.60'')]"]
    by (simp add: m)
  have d: "get_chromedriver_download_url
     (Response 200 (Inr (JObj [(''milestones'',
        JObj [(''124'', JObj [(''downloads'', JObj [(''chromedriver'', JArr [])])])])])))
     ''124.0.6367.60'' ''linux64'' =
     (fetched @ [Log WARNING msg_downloads], Inr None)"
    using t [where doc = "JObj [(''milestones'',
                 JObj [(''124'', JObj [(''downloads'', JObj [(''chromedriver'', JArr [])])])])]"
               and ms = "JObj [(''124'', JObj [(''downloads'', JObj [(''chromedriver'', JArr [])])])]"
               and mv = "JObj [(''downloads'', JObj [(''chromedriver'', JArr [])])]"
               and dl = "JObj [(''chromedriver'', JArr [])]"]
    by (simp add: m)
  show ?thesis using a b c d by (simp add: m msg_major_def)
qed

text \<open>
  Claim C3. The lookups of \<open>"platform"\<close> and \<open>"url"\<close> inside the loop have no
  \<open>try\<close> around them. On a document whose only descriptor has no \<open>"platform"\<close>,
  and on one whose matching descriptor has no \<open>"url"\<close>, resolution does not return:
  the \<open>KeyError\<close> leaves the function, and nothing is logged.
\<close>

theorem missing_descriptor_key_escapes:
  "get_chromedriver_download_url
     (Response 200 (Inr (metadata_doc ''123''
        [JObj [(''url'', JStr ''https://x/123.0.0.0/chrome-linux64.zip'')]])))
     ''123.0.6312.58'' ''linux64'' =
     (fetched, Inl (KeyError ''platform'')) \<and>
   get_chromedriver_download_url
     (Response 200 (Inr (metadata_doc ''123'' [JObj [(''platform'', JStr ''linux64'')]])))
     ''123.0.6312.58'' ''linux64'' =
     (fetched, Inl (KeyError ''url''))"
proof -
  have a: "scan_downloads [JObj [(''url'', JStr ''https://x/123.0.0.0/chrome-linux64.zip'')]] ''linux64''
           = Inl (KeyError ''platform'')"
    by simp
  have b: "scan_downloads [JObj [(''platform'', JStr ''linux64'')]] ''linux64'' = Inl (KeyError ''url'')"
    by (simp add: lower_examples)
  show ?thesis
    using metadata_doc_resolves [of "''123.0.6312.58''" _ "''linux64''"] a b
    by (simp add: major_version_example)
qed


section \<open>Properties of the installer\<close>

text \<open>
  Claim C8. For every source and target path and however the two system calls end, the
  installer returns and never raises. It copies the source onto the target and, when the
  copy succeeded, sets the mode of the target to 0755 (owner 7, group 5, others 5). It
  returns \<open>True\<close> exactly when both calls succeeded; when either fails it logs one error
  holding the exception and returns \<open>False\<close>, the mode left unset when the copy failed.
\<close>

theorem installer_copies_then_sets_mode:
  "(\<exists>b. snd (move_extracted_chromedriver ce che src dst) = Inr b) \<and>
   (snd (move_extracted_chromedriver ce che src dst) = Inr True \<longleftrightarrow> ce = None \<and> che = None) \<and>
   (ce = None \<and> che = None \<longrightarrow>
      move_extracted_chromedriver ce che src dst =
        ([Act (CopyFile src dst), Act (Chmod dst mode_0o755)], Inr True)) \<and>
   (ce = Some e \<longrightarrow>
      move_extracted_chromedriver ce che src dst =
        ([Act (CopyFile src dst), Log ERROR [Txt ''Error moving Chromedriver: '', FmtExn e]],
         Inr False)) \<and>
   (ce = None \<and> che = Some e \<longrightarrow>
      move_extracted_chromedriver ce che src dst =
        ([Act (CopyFile src dst), Act (Chmod dst mode_0o755),
          Log ERROR [Txt ''Error moving Chromedriver: '', FmtExn e]],
         Inr False)) \<and>
   mode_0o755 div 64 = 7 \<and> mode_0o755 div 8 mod 8 = 5 \<and> mode_0o755 mod 8 = 5"
  by (cases ce; cases che) (auto simp: move_extracted_chromedriver_def mode_0o755_def)

theorem installer_copies_then_sets_mode_witness:
  "move_extracted_chromedriver None None ''chromedriver-linux64/chromedriver'' ''/usr/local/bin/chromedriver'' =
     ([Act (CopyFile ''chromedriver-linux64/chromedriver'' ''/usr/local/bin/chromedriver''),
       Act (Chmod ''/usr/local/bin/chromedriver'' mode_0o755)], Inr True) \<and>
   move_extracted_chromedriver (Some (OtherError ''Permission denied'')) None
       ''chromedriver-linux64/chromedriver'' ''/usr/local/bin/chromedriver'' =
     ([Act (CopyFile ''chromedriver-linux64/chromedriver'' ''/usr/local/bin/chromedriver''),
       Log ERROR [Txt ''Error moving Chromedriver: '', FmtExn (OtherError ''Permission denied'')]],
      Inr False) \<and>
   move_extracted_chromedriver None (Some (OtherError ''Operation not permitted''))
       ''chromedriver-linux64/chromedriver'' ''/usr/local/bin/chromedriver'' =
     ([Act (CopyFile ''chromedriver-linux64/chromedriver'' ''/usr/local/bin/chromedriver''),
       Act (Chmod ''/usr/local/bin/chromedriver'' mode_0o755),
       Log ERROR [Txt ''Error moving Chromedriver: '', FmtExn (OtherError ''Operation not permitted'')]],
      Inr False) \<and>
   mode_0o755 = 493"
proof -
  note t = installer_copies_then_sets_mode
             [where src = "''chromedriver-linux64/chromedriver''"
                and dst = "''/usr/local/bin/chromedriver''"]
  have a: "move_extracted_chromedriver None None ''chromedriver-linux64/chromedriver'' ''/usr/local/bin/chromedriver'' =
     ([Act (CopyFile ''chromedriver-linux64/chromedriver'' ''/usr/local/bin/chromedriver''),
       Act (Chmod ''/usr/local/bin/chromedriver'' mode_0o755)], Inr True)"
    using t [where ce = None and che = None] by simp
  have b: "move_extracted_chromedriver (Some (OtherError ''Permission denied'')) None
       ''chromedriver-linux64/chromedriver'' ''/usr/local/bin/chromedriver'' =
     ([Act (CopyFile ''chromedriver-linux64/chromedriver'' ''/usr/local/bin/chromedriver''),
       Log ERROR [Txt ''Error moving Chromedriver: '', FmtExn (OtherError ''Permission denied'')]],
      Inr False)"
    using t [where ce = "Some (OtherError ''Permission denied'')" and che = None
               and e = "OtherError ''Permission denied''"] by simp
  have c: "move_extracted_chromedriver None (Some (OtherError ''Operation not permitted''))
       ''chromedriver-linux64/chromedriver'' ''/usr/local/bin/chromedriver'' =
     ([Act (CopyFile ''chromedriver-linux64/chromedriver'' ''/usr/local/bin/chromedriver''),
       Act (Chmod ''/usr/local/bin/chromedriver'' mode_0o755),
       Log ERROR [Txt ''Error moving Chromedriver: '', FmtExn (OtherError ''Operation not permitted'')]],
      Inr False)"
    using t [where ce = None and che = "Some (OtherError ''Operation not permitted'')"
               and e = "OtherError ''Operation not permitted''"] by simp
  show ?thesis using a b c by (simp add: mode_0o755_def)
qed

section \<open>Properties of the version check\<close>

text \<open>What \<open>is_valid_version\<close> accepts: a non-empty run of digits may be taken off the
  front of a match of a repetition, and a match of a repetition always starts with one.\<close>

lemma re_match_repeat_intro:
  assumes "ds \<noteq> []" and "list_all (atom_matches a) ds" and "re_match ps t"
  shows "re_match (OneOrMore a # ps) (ds @ t)"
  using assms
proof (induction ds)
  case Nil
  then show ?case by simp
next
  case (Cons c ds)
  show ?case
  proof (cases "ds = []")
    case True
    with Cons.prems show ?thesis by simp
  next
    case False
    with Cons show ?thesis by simp
  qed
qed

lemma re_match_repeat_elim:
  assumes "re_match (OneOrMore a # ps) s"
  shows "\<exists>ds t. ds \<noteq> [] \<and> list_all (atom_matches a) ds \<and> s = ds @ t \<and> re_match ps t"
  using assms
proof (induction s)
  case Nil
  then show ?case by simp
next
  case (Cons c s)
  then have c: "atom_matches a c" and alt: "re_match (OneOrMore a # ps) s \<or> re_match ps s"
    by simp_all
  from alt show ?case
  proof
    assume "re_match (OneOrMore a # ps) s"
    then obtain ds t where "ds \<noteq> []" "list_all (atom_matches a) ds" "s = ds @ t" "re_match ps t"
      using Cons.IH by blast
    then have "c # ds \<noteq> [] \<and> list_all (atom_matches a) (c # ds) \<and> c # s = (c # ds) @ t \<and> re_match ps t"
      using c by simp
    then show ?thesis by blast
  next
    assume "re_match ps s"
    then have "[c] \<noteq> [] \<and> list_all (atom_matches a) [c] \<and> c # s = [c] @ s \<and> re_match ps s"
      using c by simp
    then show ?thesis by blast
  qed
qed

lemma re_match_once:
  "re_match (Once a # ps) s \<longleftrightarrow> (\<exists>c t. s = c # t \<and> atom_matches a c \<and> re_match ps t)"
  by (cases s) auto

lemma digits_no_dot: "list_all is_digit ds \<Longrightarrow> CHR ''.'' \<notin> set ds"
  by (induction ds) (auto simp: is_digit_def)

lemma atom_matches_Digit: "atom_matches Digit = is_digit"
  by (rule ext) simp

lemma strict_version_dotted:
  assumes "is_integer a" "is_integer b" "is_integer c" "is_integer d"
  shows "strict_version (a @ CHR ''.'' # b @ CHR ''.'' # c @ CHR ''.'' # d)"
proof -
  have "str_split (CHR ''.'') (a @ CHR ''.'' # b @ CHR ''.'' # c @ CHR ''.'' # d) = [a, b, c, d]"
    using assms by (simp add: str_split_append str_split_no_sep digits_no_dot is_integer_def)
  then show ?thesis using assms by (simp add: strict_version_def)
qed

lemma strict_version_shape:
  assumes "strict_version s"
  shows "\<exists>a b c d. is_integer a \<and> is_integer b \<and> is_integer c \<and> is_integer d \<and>
           s = a @ CHR ''.'' # b @ CHR ''.'' # c @ CHR ''.'' # d"
proof -
  from assms obtain a b c d where sp: "str_split (CHR ''.'') s = [a, b, c, d]"
    and int: "is_integer a" "is_integer b" "is_integer c" "is_integer d"
    by (auto simp: strict_version_def split: list.splits)
  have "s = str_join ''.'' (str_split (CHR ''.'') s)"
    by (simp add: str_join_split)
  then have "s = a @ CHR ''.'' # b @ CHR ''.'' # c @ CHR ''.'' # d"
    by (simp add: sp)
  with int show ?thesis by blast
qed

lemma is_valid_version_dotted:
  assumes "is_integer a" "is_integer b" "is_integer c" "is_integer d"
  shows "is_valid_version (a @ CHR ''.'' # b @ CHR ''.'' # c @ CHR ''.'' # d @ t)"
proof -
  have d: "re_match [OneOrMore Digit] (d @ t)"
    using assms(4) by (intro re_match_repeat_intro) (simp_all add: is_integer_def atom_matches_Digit)
  have c: "re_match [OneOrMore Digit, Once (Lit (CHR ''.'')), OneOrMore Digit] (c @ CHR ''.'' # d @ t)"
    using assms(3) d
    by (intro re_match_repeat_intro) (simp_all add: is_integer_def atom_matches_Digit)
  have b: "re_match [OneOrMore Digit, Once (Lit (CHR ''.'')), OneOrMore Digit,
                     Once (Lit (CHR ''.'')), OneOrMore Digit]
             (b @ CHR ''.'' # c @ CHR ''.'' # d @ t)"
    using assms(2) c
    by (intro re_match_repeat_intro) (simp_all add: is_integer_def atom_matches_Digit)
  have "re_match version_pattern (a @ CHR ''.'' # b @ CHR ''.'' # c @ CHR ''.'' # d @ t)"
    unfolding version_pattern_def using assms(1) b
    by (intro re_match_repeat_intro) (simp_all add: is_integer_def atom_matches_Digit)
  then show ?thesis by (simp add: is_valid_version_def)
qed

lemma strict_version_is_valid: "strict_version s \<Longrightarrow> is_valid_version s"
  using strict_version_shape [of s] is_valid_version_dotted [where t = "[]"] by fastforce

lemma is_valid_version_iff_strict_prefix:
  "is_valid_version s \<longleftrightarrow> (\<exists>p t. s = p @ t \<and> strict_version p)"
proof
  assume "is_valid_version s"
  then have m: "re_match version_pattern s" by (simp add: is_valid_version_def)
  from re_match_repeat_elim [OF m [unfolded version_pattern_def]]
  obtain a s1 where a: "is_integer a" "s = a @ s1"
    and m1: "re_match [Once (Lit (CHR ''.'')), OneOrMore Digit, Once (Lit (CHR ''.'')),
                       OneOrMore Digit, Once (Lit (CHR ''.'')), OneOrMore Digit] s1"
    by (auto simp: is_integer_def atom_matches_Digit)
  from m1 obtain s2 where s1: "s1 = CHR ''.'' # s2"
    and m2: "re_match [OneOrMore Digit, Once (Lit (CHR ''.'')),
                       OneOrMore Digit, Once (Lit (CHR ''.'')), OneOrMore Digit] s2"
    by (auto simp: re_match_once)
  from re_match_repeat_elim [OF m2]
  obtain b s3 where b: "is_integer b" "s2 = b @ s3"
    and m3: "re_match [Once (Lit (CHR ''.'')), OneOrMore Digit, Once (Lit (CHR ''.'')), OneOrMore Digit] s3"
    by (auto simp: is_integer_def atom_matches_Digit)
  from m3 obtain s4 where s3: "s3 = CHR ''.'' # s4"
    and m4: "re_match [OneOrMore Digit, Once (Lit (CHR ''.'')), OneOrMore Digit] s4"
    by (auto simp: re_match_once)
  from re_match_repeat_elim [OF m4]
  obtain c s5 where c: "is_integer c" "s4 = c @ s5"
    and m5: "re_match [Once (Lit (CHR ''.'')), OneOrMore Digit] s5"
    by (auto simp: is_integer_def atom_matches_Digit)
  from m5 obtain s6 where s5: "s5 = CHR ''.'' # s6" and m6: "re_match [OneOrMore Digit] s6"
    by (auto simp: re_match_once)
  from re_match_repeat_elim [OF m6]
  obtain d t where d: "is_integer d" "s6 = d @ t"
    by (auto simp: is_integer_def atom_matches_Digit)
  have "s = (a @ CHR ''.'' # b @ CHR ''.'' # c @ CHR ''.'' # d) @ t"
    using a(2) s1 b(2) s3 c(2) s5 d(2) by simp
  moreover have "strict_version (a @ CHR ''.'' # b @ CHR ''.'' # c @ CHR ''.'' # d)"
    using a(1) b(1) c(1) d(1) by (rule strict_version_dotted)
  ultimately show "\<exists>p t. s = p @ t \<and> strict_version p" by blast
next
  assume "\<exists>p t. s = p @ t \<and> strict_version p"
  then obtain p t where s: "s = p @ t" and p: "strict_version p" by blast
  from strict_version_shape [OF p] obtain a b c d where
    "is_integer a" "is_integer b" "is_integer c" "is_integer d"
    "p = a @ CHR ''.'' # b @ CHR ''.'' # c @ CHR ''.'' # d" by blast
  then show "is_valid_version s"
    using is_valid_version_dotted [of a b c d t] s by simp
qed

lemma version_examples_rejected:
  "\<not> is_valid_version ''abc''" "\<not> is_valid_version ''1.2.3''" "\<not> is_valid_version ''''"
  "is_valid_version ''123.0.6312.58''"
  by (simp_all add: is_valid_version_def version_pattern_def is_digit_def)

text \<open>
  Claim C1. Every string of the strict pattern is accepted (\<open>strict_version_is_valid\<close>),
  and \<open>abc\<close>, \<open>1.2.3\<close> and the empty string are rejected. But \<open>re.match\<close> does not
  ask the match to reach the end of the string: \<open>1.2.3.4abc\<close>, which is not of the strict
  pattern, is accepted, as is every string that starts with one of the strict pattern
  (\<open>is_valid_version_iff_strict_prefix\<close>).
\<close>

theorem is_valid_version_accepts_trailing_characters:
  "is_valid_version ''1.2.3.4abc'' \<and> \<not> strict_version ''1.2.3.4abc''"
  by (simp add: is_valid_version_def version_pattern_def strict_version_def is_digit_def
        is_integer_def)

section \<open>Properties of the version detector\<close>

text \<open>A return code other than 0 is caught: one error with the captured output is logged,
  the detector returns \<open>None\<close>, and the run ends with no request and no file touched.\<close>

lemma nonzero_exit_is_reported:
  assumes "code \<noteq> 0"
  shows "get_chrome_version (Exited code out err) =
           ([Act (Spawn [''google-chrome'', ''--version'']),
             Log ERROR [Txt (''Error: '' @ str_strip out)]], Inr None)"
    and "main (w\<lparr>chrome_proc := Exited code out err\<rparr>) p =
           ([Act (Spawn [''google-chrome'', ''--version'']),
             Log ERROR [Txt (''Error: '' @ str_strip out)]], Inr ())"
    and "\<not> list_ex is_outside_action (fst (main (w\<lparr>chrome_proc := Exited code out err\<rparr>) p))"
  using assms
  by (simp_all add: get_chrome_version_def main_def then_run_def unless_falsy_def)

text \<open>
  Claim C4. When the browser executable is absent, \<open>check_output\<close> raises
  \<open>FileNotFoundError\<close>, which is not the \<open>CalledProcessError\<close> the detector catches:
  the exception leaves the detector and then the pipeline, with nothing logged. (No request
  is sent and no file is touched: the only event is the attempt to start the browser.)
\<close>

theorem missing_browser_escapes:
  "get_chrome_version (LaunchFailed FileNotFoundError) =
     ([Act (Spawn [''google-chrome'', ''--version''])], Inl FileNotFoundError) \<and>
   main (w\<lparr>chrome_proc := LaunchFailed FileNotFoundError\<rparr>) p =
     ([Act (Spawn [''google-chrome'', ''--version''])], Inl FileNotFoundError)"
  by (simp add: get_chrome_version_def main_def then_run_def)

section \<open>Properties of the archive fetcher\<close>

text \<open>A status from 400 to 599 makes \<open>raise_for_status\<close> raise, and the fetcher has no
  handler. Any other status, 304 for one, is taken as a success and the body is written. The
  end-to-end scenario runs through all six stages.\<close>

lemma error_status_raises:
  assumes "400 \<le> status_code r" and "status_code r < 600"
  shows "download_chromedriver (Answered r) oe we url =
           ([Act (HttpGet url)], Inl (HTTPError (status_code r)))"
  using assms by (simp add: download_chromedriver_def raise_for_status_def)

lemma other_status_is_written:
  "download_chromedriver
     (Answered \<lparr>status_code = 304, content_length = None, chunks = []\<rparr>) None we
     ''https://x/124.0.6367.60/linux64/chromedriver-linux64.zip'' =
   ([Act (HttpGet ''https://x/124.0.6367.60/linux64/chromedriver-linux64.zip''),
     Act (OpenForWrite ''chromedriver-linux64.zip'')], Inr ''chromedriver-linux64.zip'')"
  by (simp add: download_chromedriver_def raise_for_status_def Let_def)

lemma scenario_resolves:
  "get_chromedriver_download_url (versions_resp scenario) ''124.0.6367.60'' ''linux64'' =
     (fetched, Inr (Some ''https://x/124.0.6367.60/linux64/chromedriver-linux64.zip''))"
proof -
  have m: "major_version ''124.0.6367.60'' = ''124''" by (simp add: major_version_def)
  have s: "scan_downloads [descriptor ''linux64'' ''https://x/124.0.6367.60/linux64/chrome-linux64.zip''] ''linux64''
           = Inr (Some ''https://x/124.0.6367.60/linux64/chromedriver-linux64.zip'')"
    by (simp add: descriptor_def lower_examples rewrite_url_def)
  show ?thesis
    using metadata_doc_resolves [of "''124.0.6367.60''" _ "''linux64''"] s
    by (simp add: m scenario_def)
qed

lemma scenario_version:
  "get_chrome_version (chrome_proc scenario) =
     ([Act (Spawn [''google-chrome'', ''--version''])], Inr (Some ''124.0.6367.60''))"
  by (simp add: get_chrome_version_def scenario_def str_strip_def str_split_ws_def is_space_def
        is_valid_version_def version_pattern_def is_digit_def)

lemma end_to_end:
  "main scenario ''linux64'' =
     ([Act (Spawn [''google-chrome'', ''--version'']),
       Act (HttpGet latest_versions_url),
       Log INFO [Txt ''Starting to download chromedriver (version: 124.0.6367.60, platform: linux64)''],
       Act (HttpGet ''https://x/124.0.6367.60/linux64/chromedriver-linux64.zip''),
       Act (OpenForWrite ''chromedriver-linux64.zip''),
       Act (WriteChunk ''chromedriver-linux64.zip'' [80, 75]),
       Act (WriteChunk ''chromedriver-linux64.zip'' [3, 4]),
       Log SUCCESS [Txt ''Successfully downloaded chromedriver''],
       Act (ExtractAll ''chromedriver-linux64.zip''),
       Act (Spawn [''which'', ''chromedriver'']),
       Act (CopyFile ''chromedriver-linux64/chromedriver'' ''/usr/local/bin/chromedriver''),
       Act (Chmod ''/usr/local/bin/chromedriver'' 493),
       Log SUCCESS [Txt ''Chromedriver successfully updated for your OS.'']],
      Inr ())"
  by code_simp

text \<open>
  Claim C5. On a response with status 404 the fetcher does not return a failure value: the
  \<open>HTTPError\<close> leaves it, whatever the rest of the response, and in the scenario it leaves
  the pipeline too, before the error message that the pipeline has ready for a failed
  download could be logged.
\<close>

theorem failed_download_escapes:
  "download_chromedriver
     (Answered \<lparr>status_code = 404, content_length = cl, chunks = cs\<rparr>) oe we url =
     ([Act (HttpGet url)], Inl (HTTPError 404)) \<and>
   main (scenario\<lparr>archive_resp :=
           \<lambda>url. Answered \<lparr>status_code = 404, content_length = None, chunks = []\<rparr>\<rparr>) ''linux64'' =
     ([Act (Spawn [''google-chrome'', ''--version'']),
       Act (HttpGet latest_versions_url),
       Log INFO [Txt ''Starting to download chromedriver (version: 124.0.6367.60, platform: linux64)''],
       Act (HttpGet ''https://x/124.0.6367.60/linux64/chromedriver-linux64.zip'')],
      Inl (HTTPError 404))"
proof -
  let ?w = "scenario\<lparr>archive_resp :=
           \<lambda>url. Answered \<lparr>status_code = 404, content_length = None, chunks = []\<rparr>\<rparr>"
  have "main ?w ''linux64'' =
     ([Act (Spawn [''google-chrome'', ''--version'']),
       Act (HttpGet latest_versions_url),
       Log INFO [Txt ''Starting to download chromedriver (version: 124.0.6367.60, platform: linux64)''],
       Act (HttpGet ''https://x/124.0.6367.60/linux64/chromedriver-linux64.zip'')],
      Inl (HTTPError 404))"
    by code_simp
  then show ?thesis
    by (simp add: download_chromedriver_def raise_for_status_def)
qed

section \<open>Properties of the archive extractor\<close>

text \<open>For a name \<open>stem.zip\<close> whose stem has no dot, the extractor returns the stem joined
  with \<open>chromedriver\<close>, and the stem is the name without its extension.\<close>

lemma stem_without_dot:
  assumes "CHR ''.'' \<notin> set stem"
  shows "extract_zipped_file None (stem @ ''.zip'') =
           ([Act (ExtractAll (stem @ ''.zip''))], Inr (Some (path_join stem ''chromedriver'')))"
proof -
  have "str_split (CHR ''.'') (stem @ CHR ''.'' # ''zip'') = [stem, ''zip'']"
    using assms by (simp add: str_split_append str_split_no_sep)
  then show ?thesis by (simp add: extract_zipped_file_def)
qed

lemma without_extension_stem:
  assumes "CHR ''.'' \<notin> set stem" and "stem \<noteq> []"
  shows "without_extension (stem @ ''.zip'') = stem"
proof -
  obtain c cs where stem: "stem = c # cs" using assms(2) by (cases stem) auto
  have c: "c \<noteq> CHR ''.''" using assms(1) stem by auto
  have "dropWhile (\<lambda>c. c \<noteq> CHR ''.'') (''piz'' @ CHR ''.'' # rev stem) = CHR ''.'' # rev stem"
    by simp
  then show ?thesis
    using c by (simp add: without_extension_def stem)
qed

text \<open>
  Claim C7. The extractor cuts the name at its first dot, not at its last: after a
  successful extraction of \<open>chromedriver-mac.arm64.zip\<close> it returns
  \<open>chromedriver-mac/chromedriver\<close>, while the name without its extension joined with
  \<open>chromedriver\<close> is \<open>chromedriver-mac.arm64/chromedriver\<close>.
\<close>

theorem stem_stops_at_first_dot:
  "extract_zipped_file None ''chromedriver-mac.arm64.zip'' =
     ([Act (ExtractAll ''chromedriver-mac.arm64.zip'')],
      Inr (Some ''chromedriver-mac/chromedriver'')) \<and>
   path_join (without_extension ''chromedriver-mac.arm64.zip'') ''chromedriver'' =
     ''chromedriver-mac.arm64/chromedriver''"
  by (simp add: extract_zipped_file_def path_join_def without_extension_def)

end
